theory Spec2Isabelle
  imports Complex_Main "HOL-Library.Word" "HOL-Library.Multiset"
begin

section \<open>Strings of the host language\<close>

text \<open>
  A JavaScript string is a sequence of 16-bit code units. Literals of the source are
  ASCII, so they are written as HOL strings and converted with \<open>str\<close>.
\<close>

type_synonym jsstring = "16 word list"

definition str :: "string \<Rightarrow> jsstring" where
  "str s = map (\<lambda>c. of_nat (of_char c)) s"

text \<open>
  \<open>String.prototype.trim\<close> removes leading and trailing white space and line
  terminators: TAB, LF, VT, FF, CR, SP, NBSP, U+1680, U+2000..U+200A, U+2028, U+2029,
  U+202F, U+205F, U+3000 and U+FEFF. All of them are single code units.
\<close>

definition isWhiteSpace :: "16 word \<Rightarrow> bool" where
  "isWhiteSpace c \<longleftrightarrow>
     c = 0x09 \<or> c = 0x0A \<or> c = 0x0B \<or> c = 0x0C \<or> c = 0x0D \<or> c = 0x20 \<or> c = 0xA0 \<or>
     c = 0x1680 \<or> (0x2000 \<le> c \<and> c \<le> 0x200A) \<or> c = 0x2028 \<or> c = 0x2029 \<or>
     c = 0x202F \<or> c = 0x205F \<or> c = 0x3000 \<or> c = 0xFEFF"

definition trim :: "jsstring \<Rightarrow> jsstring" where
  "trim s = rev (dropWhile isWhiteSpace (rev (dropWhile isWhiteSpace s)))"

section \<open>ChatAssistant\<close>

subsection \<open>Data\<close>

text \<open>
  \<open>interface Message\<close>. The field \<open>id\<close> is named \<open>id_msg\<close> here; a timestamp
  (\<open>new Date()\<close>) is the clock reading in milliseconds.
\<close>

record message =
  id_msg :: nat
  content :: jsstring
  isBot :: bool
  timestamp :: nat

text \<open>
  The component state: the two \<open>useState\<close> cells of \<open>ChatAssistant\<close>.
\<close>

record chat_state =
  messages :: "message list"
  inputValue :: jsstring

text \<open>
  A pending one-shot timer of the host (\<open>setTimeout\<close>): the time at which it is due,
  and the variable its callback closes over. The callback of \<open>handleSendMessage\<close> reads
  \<open>messages\<close>, the constant of the render in which the handler was created, so the timer
  holds that list.
\<close>

record timer =
  due :: nat
  closure_messages :: "message list"

text \<open>The mounted component together with the host's timer queue.\<close>

record world = chat_state +
  pending :: "timer list"

definition greetingText :: jsstring where
  "greetingText =
     str ''Hello! I'm your shopping assistant. How can I help you find the perfect product today?''"

definition replyText :: jsstring where
  "replyText =
     str ''I understand you're looking for that. Let me help you find the best options based on your preferences and budget.''"

text \<open>\<open>initialMessages\<close>, built when the module is loaded, at time \<open>t0\<close>.\<close>

definition initialMessages :: "nat \<Rightarrow> message list" where
  "initialMessages t0 =
     [\<lparr>id_msg = 1, content = greetingText, isBot = True, timestamp = t0\<rparr>]"

text \<open>The first render: \<open>useState(initialMessages)\<close>, \<open>useState("")\<close>, no timer.\<close>

definition mount :: "nat \<Rightarrow> world" where
  "mount t0 = \<lparr>messages = initialMessages t0, inputValue = [], pending = []\<rparr>"

subsection \<open>Handlers\<close>

text \<open>
  \<open>handleSendMessage\<close>, called at time \<open>now\<close>. React renders again after every state
  change and before the next event is handled, so the handler's \<open>messages\<close> and
  \<open>inputValue\<close> are those of the current state. The result is the new component state
  and the timers handed to \<open>setTimeout\<close>. The delay is the literal \<open>1000\<close> of the source.
\<close>

definition handleSendMessage ::
    "nat \<Rightarrow> 'a chat_state_scheme \<Rightarrow> 'a chat_state_scheme \<times> timer list" where
  "handleSendMessage now st =
     (if trim (inputValue st) = [] then (st, [])
      else
        let userMessage =
              \<lparr>id_msg = length (messages st) + 1, content = inputValue st,
               isBot = False, timestamp = now\<rparr>
        in (st\<lparr>messages := messages st @ [userMessage], inputValue := []\<rparr>,
            [\<lparr>due = now + 1000, closure_messages = messages st\<rparr>]))"

text \<open>
  The timer's callback, run at time \<open>now\<close>: \<open>botResponse\<close> is built from the captured
  \<open>messages\<close>, and appended to the state of that moment
  (\<open>setMessages((prev) => [...prev, botResponse])\<close>).
\<close>

definition botResponse :: "nat \<Rightarrow> timer \<Rightarrow> message" where
  "botResponse now tm =
     \<lparr>id_msg = length (closure_messages tm) + 2, content = replyText,
      isBot = True, timestamp = now\<rparr>"

definition timerCallback :: "nat \<Rightarrow> timer \<Rightarrow> 'a chat_state_scheme \<Rightarrow> 'a chat_state_scheme" where
  "timerCallback now tm st = st\<lparr>messages := messages st @ [botResponse now tm]\<rparr>"

text \<open>\<open>onChange\<close> of the input field.\<close>

definition setInputValue :: "jsstring \<Rightarrow> 'a chat_state_scheme \<Rightarrow> 'a chat_state_scheme" where
  "setInputValue v st = st\<lparr>inputValue := v\<rparr>"

subsection \<open>The component in its host\<close>

text \<open>A send: the handler runs and its timers join the queue.\<close>

definition send :: "nat \<Rightarrow> world \<Rightarrow> world" where
  "send now w =
     (let (w', new) = handleSendMessage now w in w'\<lparr>pending := pending w' @ new\<rparr>)"

text \<open>\<open>handleKeyPress\<close>: only the key \<open>Enter\<close> sends.\<close>

definition handleKeyPress :: "nat \<Rightarrow> jsstring \<Rightarrow> world \<Rightarrow> world" where
  "handleKeyPress now key w = (if key = str ''Enter'' then send now w else w)"

text \<open>
  The host runs one timer callback at a time: the pending timer that is due first, the
  one created first among equals, and only once its time has come.
\<close>

definition fire :: "nat \<Rightarrow> world \<Rightarrow> world" where
  "fire now w =
     (if pending w = [] then w
      else
        let tm = arg_min_list due (pending w)
        in if due tm \<le> now
           then (timerCallback now tm w)\<lparr>pending := remove1 tm (pending w)\<rparr>
           else w)"

text \<open>Time reaches \<open>t\<close>, and every timer due by then has run.\<close>

definition elapse :: "nat \<Rightarrow> world \<Rightarrow> world" where
  "elapse t w = ((fire t) ^^ length (pending w)) w"

text \<open>
  What can happen to the mounted component: a change of the input field, a key pressed
  in it, a click on the send button, one timer callback run by the host, or the passing
  of time up to \<open>t\<close>.
\<close>

datatype event =
    Change jsstring
  | KeyPress nat jsstring
  | Click nat
  | Tick nat
  | Elapse nat

fun step :: "event \<Rightarrow> world \<Rightarrow> world" where
  "step (Change v) w = setInputValue v w"
| "step (KeyPress now key) w = handleKeyPress now key w"
| "step (Click now) w = send now w"
| "step (Tick now) w = fire now w"
| "step (Elapse t) w = elapse t w"

definition run :: "event list \<Rightarrow> world \<Rightarrow> world" where
  "run es w = fold step es w"

text \<open>The spec's \<open>submit(text)\<close>: the text is typed into the field and sent.\<close>

definition submit :: "nat \<Rightarrow> jsstring \<Rightarrow> world \<Rightarrow> world" where
  "submit now text w = send now (setInputValue text w)"

definition ids :: "'a chat_state_scheme \<Rightarrow> nat list" where
  "ids st = map id_msg (messages st)"

definition userCount :: "message list \<Rightarrow> nat" where
  "userCount ms = length (filter (\<lambda>m. \<not> isBot m) ms)"

definition assistantCount :: "message list \<Rightarrow> nat" where
  "assistantCount ms = length (filter isBot ms)"

text \<open>
  The bookkeeping of turns: assistant messages and pending replies together are one more
  than the user messages (the greeting), and no prefix of the log holds more replies
  than the user messages before them allow.
\<close>

definition balanced :: "world \<Rightarrow> bool" where
  "balanced w \<longleftrightarrow>
     assistantCount (messages w) + length (pending w) = userCount (messages w) + 1 \<and>
     (\<forall>n. assistantCount (take n (messages w)) \<le> userCount (take n (messages w)) + 1)"

section \<open>ProductGrid\<close>

subsection \<open>Data\<close>

text \<open>The imported image modules.\<close>

datatype asset = headphonesImg | laptopImg | smartphoneImg | mugImg

text \<open>
  \<open>interface Product\<close>. The fields \<open>id\<close> and \<open>image\<close> are named \<open>id_prod\<close> and
  \<open>image_prod\<close>; prices and ratings are the decimal literals of the source.
\<close>

record product =
  id_prod :: nat
  name :: jsstring
  price :: rat
  rating :: rat
  reviews :: nat
  image_prod :: asset
  category :: jsstring
  badge :: "jsstring option"

definition products :: "product list" where
  "products =
     [\<lparr>id_prod = 1, name = str ''Premium Wireless Headphones'', price = 299.99, rating = 4.8,
       reviews = 256, image_prod = headphonesImg, category = str ''Electronics'',
       badge = Some (str ''Best Seller'')\<rparr>,
      \<lparr>id_prod = 2, name = str ''Ultra-Slim Laptop Pro'', price = 1299.99, rating = 4.9,
       reviews = 189, image_prod = laptopImg, category = str ''Electronics'',
       badge = None\<rparr>,
      \<lparr>id_prod = 3, name = str ''Smart Phone X1'', price = 899.99, rating = 4.7,
       reviews = 342, image_prod = smartphoneImg, category = str ''Electronics'',
       badge = Some (str ''New'')\<rparr>,
      \<lparr>id_prod = 4, name = str ''Minimalist Coffee Mug'', price = 24.99, rating = 4.6,
       reviews = 128, image_prod = mugImg, category = str ''Home'',
       badge = None\<rparr>,
      \<lparr>id_prod = 5, name = str ''Premium Wireless Headphones Pro'', price = 399.99,
       rating = 4.9, reviews = 445, image_prod = headphonesImg,
       category = str ''Electronics'', badge = Some (str ''Premium'')\<rparr>,
      \<lparr>id_prod = 6, name = str ''Gaming Laptop Elite'', price = 1799.99, rating = 4.8,
       reviews = 267, image_prod = laptopImg, category = str ''Electronics'',
       badge = None\<rparr>]"

text \<open>The component state: \<open>useState("grid")\<close> and \<open>useState("featured")\<close>.\<close>

record grid_state =
  viewMode :: jsstring
  sortBy :: jsstring

definition gridInitial :: grid_state where
  "gridInitial = \<lparr>viewMode = str ''grid'', sortBy = str ''featured''\<rparr>"

text \<open>The \<open>SelectItem\<close>s of the sort menu, in their order: value and label.\<close>

definition selectItems :: "(jsstring \<times> jsstring) list" where
  "selectItems =
     [(str ''featured'', str ''Featured''),
      (str ''price-low'', str ''Price: Low to High''),
      (str ''price-high'', str ''Price: High to Low''),
      (str ''rating'', str ''Highest Rated''),
      (str ''newest'', str ''Newest'')]"

definition sortOptions :: "jsstring list" where
  "sortOptions = map fst selectItems"

subsection \<open>Rendering\<close>

text \<open>
  What one \<open>Card\<close> shows of a product: its key, the image and its alternative text, the
  badge if there is one, the name, five stars (filled while \<open>i < Math.floor(rating)\<close>),
  the rating, the number of reviews and the price.
\<close>

record card =
  key :: nat
  img_src :: asset
  img_alt :: jsstring
  badge_span :: "jsstring option"
  heading :: jsstring
  stars :: "bool list"
  rating_label :: rat
  reviews_label :: nat
  price_label :: rat

definition productCard :: "product \<Rightarrow> card" where
  "productCard p =
     \<lparr>key = id_prod p, img_src = image_prod p, img_alt = name p, badge_span = badge p,
      heading = name p, stars = map (\<lambda>i. int i < \<lfloor>rating p\<rfloor>) [0..<5],
      rating_label = rating p, reviews_label = reviews p, price_label = price p\<rparr>"

text \<open>
  What the component renders from its state: the item count, the value shown by the
  sort menu, the variants of the two view buttons, the class of the grid, and the cards.
\<close>

record grid_view =
  item_count :: nat
  select_value :: jsstring
  grid_button_variant :: jsstring
  list_button_variant :: jsstring
  grid_class :: jsstring
  cards :: "card list"

definition ProductGrid :: "grid_state \<Rightarrow> grid_view" where
  "ProductGrid st =
     \<lparr>item_count = length products,
      select_value = sortBy st,
      grid_button_variant = (if viewMode st = str ''grid'' then str ''default'' else str ''ghost''),
      list_button_variant = (if viewMode st = str ''list'' then str ''default'' else str ''ghost''),
      grid_class =
        str ''grid '' @
        (if viewMode st = str ''grid''
         then str ''grid-cols-1 md:grid-cols-2 lg:grid-cols-3 xl:grid-cols-4 gap-6''
         else str ''grid-cols-1 gap-4''),
      cards = map productCard products\<rparr>"

subsection \<open>Events\<close>

text \<open>
  The sort menu calls \<open>setSortBy\<close> with the value of the item chosen, the \<open>k\<close>-th of
  the menu; the two view buttons call \<open>setViewMode("grid")\<close> and \<open>setViewMode("list")\<close>.
  The other buttons have no handler.
\<close>

datatype grid_event = SelectItem nat | ClickGrid | ClickList

fun gridStep :: "grid_event \<Rightarrow> grid_state \<Rightarrow> grid_state" where
  "gridStep (SelectItem k) st =
     (if k < length selectItems then st\<lparr>sortBy := fst (selectItems ! k)\<rparr> else st)"
| "gridStep ClickGrid st = st\<lparr>viewMode := str ''grid''\<rparr>"
| "gridStep ClickList st = st\<lparr>viewMode := str ''list''\<rparr>"

definition gridRun :: "grid_event list \<Rightarrow> grid_state \<Rightarrow> grid_state" where
  "gridRun es st = fold gridStep es st"

section \<open>Properties of the chat session\<close>

subsection \<open>The handlers, case by case\<close>

lemma handleSendMessage_rejected:
  "trim (inputValue st) = [] \<Longrightarrow> handleSendMessage now st = (st, [])"
  by (simp add: handleSendMessage_def)

lemma handleSendMessage_accepted:
  "trim (inputValue st) \<noteq> [] \<Longrightarrow>
   handleSendMessage now st =
     (st\<lparr>messages := messages st @
           [\<lparr>id_msg = length (messages st) + 1, content = inputValue st,
             isBot = False, timestamp = now\<rparr>],
         inputValue := []\<rparr>,
      [\<lparr>due = now + 1000, closure_messages = messages st\<rparr>])"
  by (simp add: handleSendMessage_def Let_def)

lemma send_rejected: "trim (inputValue w) = [] \<Longrightarrow> send now w = w"
  by (simp add: send_def handleSendMessage_rejected)

lemma send_accepted:
  "trim (inputValue w) \<noteq> [] \<Longrightarrow>
   send now w =
     w\<lparr>messages := messages w @
           [\<lparr>id_msg = length (messages w) + 1, content = inputValue w,
             isBot = False, timestamp = now\<rparr>],
       inputValue := [],
       pending := pending w @ [\<lparr>due = now + 1000, closure_messages = messages w\<rparr>]\<rparr>"
  by (simp add: send_def handleSendMessage_accepted)

lemma arg_min_list_least:
  "x \<in> set xs \<Longrightarrow> f (arg_min_list f xs) \<le> (f x :: nat)"
proof -
  assume x: "x \<in> set xs"
  then have ne: "xs \<noteq> []" by auto
  have "Min (f ` set xs) \<le> f x" using x by (intro Min_le) auto
  then show ?thesis by (simp add: f_arg_min_list_f [OF ne])
qed

lemma fire_idle:
  "pending w = [] \<or> \<not> due (arg_min_list due (pending w)) \<le> t \<Longrightarrow> fire t w = w"
  by (auto simp: fire_def Let_def)

lemma fire_due:
  "pending w \<noteq> [] \<Longrightarrow> due (arg_min_list due (pending w)) \<le> t \<Longrightarrow>
   fire t w =
     w\<lparr>messages := messages w @ [botResponse t (arg_min_list due (pending w))],
       pending := remove1 (arg_min_list due (pending w)) (pending w)\<rparr>"
  by (simp add: fire_def Let_def timerCallback_def)


lemma fire_funpow_idle:
  "pending w = [] \<or> \<not> due (arg_min_list due (pending w)) \<le> t \<Longrightarrow> (fire t ^^ n) w = w"
  by (induction n) (simp_all add: fire_idle)


lemma filter_remove1_other:
  "\<not> P x \<Longrightarrow> filter P (remove1 x xs) = filter P xs"
  by (induction xs) auto


lemma fire_funpow_pending:
  "length (pending w) \<le> n \<Longrightarrow>
   pending ((fire t ^^ n) w) = filter (\<lambda>tm. \<not> due tm \<le> t) (pending w)"
proof (induction n arbitrary: w)
  case 0
  then show ?case by simp
next
  case (Suc n)
  show ?case
  proof (cases "pending w = [] \<or> \<not> due (arg_min_list due (pending w)) \<le> t")
    case True
    have "\<not> due tm \<le> t" if "tm \<in> set (pending w)" for tm
      using True that arg_min_list_least [of tm "pending w" due] by auto
    then have "filter (\<lambda>tm. \<not> due tm \<le> t) (pending w) = pending w"
      by (simp add: filter_id_conv)
    moreover have "(fire t ^^ Suc n) w = w" by (rule fire_funpow_idle [OF True])
    ultimately show ?thesis by (simp only:)
  next
    case False
    then have ne: "pending w \<noteq> []" and d: "due (arg_min_list due (pending w)) \<le> t"
      by auto
    let ?tm = "arg_min_list due (pending w)"
    have mem: "?tm \<in> set (pending w)" using ne by (rule arg_min_list_in)
    have len: "length (pending (fire t w)) \<le> n"
      using Suc.prems mem ne by (simp add: fire_due [OF ne d] length_remove1)
    have "pending ((fire t ^^ Suc n) w) = pending ((fire t ^^ n) (fire t w))"
      by (simp add: funpow_swap1)
    also have "\<dots> = filter (\<lambda>tm. \<not> due tm \<le> t) (pending (fire t w))"
      by (rule Suc.IH [OF len])
    also have "\<dots> = filter (\<lambda>tm. \<not> due tm \<le> t) (pending w)"
      using filter_remove1_other [of "\<lambda>tm. \<not> due tm \<le> t" ?tm "pending w"] d
      by (simp add: fire_due [OF ne d])
    finally show ?thesis .
  qed
qed


lemma elapse_pending:
  "pending (elapse t w) = filter (\<lambda>tm. \<not> due tm \<le> t) (pending w)"
  by (simp add: elapse_def fire_funpow_pending)

lemma send_appends:
  "messages (send now w) = messages w \<or> (\<exists>m. messages (send now w) = messages w @ [m])"
  by (cases "trim (inputValue w) = []") (simp_all add: send_rejected send_accepted)

lemma fire_appends:
  "messages (fire t w) = messages w \<or> (\<exists>m. messages (fire t w) = messages w @ [m])"
  by (cases "pending w = [] \<or> \<not> due (arg_min_list due (pending w)) \<le> t")
     (auto simp: fire_idle fire_due)

lemma fire_funpow_extends:
  "\<exists>rest. messages ((fire t ^^ n) w) = messages w @ rest"
proof (induction n)
  case 0
  show ?case by simp
next
  case (Suc n)
  then obtain rest where r: "messages ((fire t ^^ n) w) = messages w @ rest" ..
  from fire_appends [of t "(fire t ^^ n) w"] r show ?case by auto
qed

lemma step_extends: "\<exists>rest. messages (step e w) = messages w @ rest"
proof (cases e)
  case (Change v)
  then show ?thesis by (simp add: setInputValue_def)
next
  case (KeyPress now key)
  with send_appends [of now w] show ?thesis by (auto simp: handleKeyPress_def)
next
  case (Click now)
  with send_appends [of now w] show ?thesis by auto
next
  case (Tick now)
  with fire_appends [of now w] show ?thesis by auto
next
  case (Elapse t)
  with fire_funpow_extends [where t = t and n = "length (pending w)" and w = w] show ?thesis
    by (simp add: elapse_def)
qed

lemma run_Cons: "run (e # es) w = run es (step e w)"
  by (simp add: run_def)

lemma run_snoc: "run (es @ [e]) w = step e (run es w)"
  by (simp add: run_def)

lemma run_extends: "\<exists>rest. messages (run es w) = messages w @ rest"
proof (induction es arbitrary: w)
  case Nil
  show ?case by (simp add: run_def)
next
  case (Cons e es)
  obtain r1 where r1: "messages (step e w) = messages w @ r1"
    using step_extends by blast
  obtain r2 where r2: "messages (run es (step e w)) = messages (step e w) @ r2"
    using Cons.IH by blast
  show ?case by (simp add: run_Cons r1 r2)
qed

lemma balanced_mount: "balanced (mount t0)"
proof -
  have "assistantCount (take n (initialMessages t0)) \<le> userCount (take n (initialMessages t0)) + 1"
    for n
    by (cases n) (simp_all add: initialMessages_def assistantCount_def userCount_def)
  then show ?thesis
    by (simp add: balanced_def mount_def)
       (simp add: assistantCount_def userCount_def initialMessages_def)
qed

lemma balanced_send: "balanced w \<Longrightarrow> balanced (send now w)"
proof (cases "trim (inputValue w) = []")
  case True
  then show "balanced w \<Longrightarrow> balanced (send now w)" by (simp add: send_rejected)
next
  case False
  assume b: "balanced w"
  show "balanced (send now w)"
    unfolding balanced_def
  proof (intro conjI allI)
    show "assistantCount (messages (send now w)) + length (pending (send now w)) =
      userCount (messages (send now w)) + 1"
      using b by (simp add: send_accepted [OF False] balanced_def assistantCount_def userCount_def)
  next
    fix n
    show "assistantCount (take n (messages (send now w))) \<le>
      userCount (take n (messages (send now w))) + 1"
    proof (cases "n \<le> length (messages w)")
      case True
      then show ?thesis using b by (simp add: send_accepted [OF False] balanced_def)
    next
      case False
      then show ?thesis using b spec [of _ "length (messages w)"]
        by (simp add: send_accepted [OF \<open>trim (inputValue w) \<noteq> []\<close>] balanced_def
            assistantCount_def userCount_def)
    qed
  qed
qed

lemma balanced_fire: "balanced w \<Longrightarrow> balanced (fire t w)"
proof (cases "pending w = [] \<or> \<not> due (arg_min_list due (pending w)) \<le> t")
  case True
  then show "balanced w \<Longrightarrow> balanced (fire t w)" by (simp add: fire_idle)
next
  case False
  then have ne: "pending w \<noteq> []" and d: "due (arg_min_list due (pending w)) \<le> t"
    by auto
  have mem: "arg_min_list due (pending w) \<in> set (pending w)" using ne by (rule arg_min_list_in)
  obtain k where pos: "length (pending w) = Suc k" using ne by (cases "pending w") auto
  assume b: "balanced w"
  show "balanced (fire t w)"
    unfolding balanced_def
  proof (intro conjI allI)
    show "assistantCount (messages (fire t w)) + length (pending (fire t w)) =
      userCount (messages (fire t w)) + 1"
      using b pos mem
      by (simp add: fire_due [OF ne d] balanced_def assistantCount_def userCount_def
          botResponse_def length_remove1)
  next
    fix n
    show "assistantCount (take n (messages (fire t w))) \<le>
      userCount (take n (messages (fire t w))) + 1"
    proof (cases "n \<le> length (messages w)")
      case True
      then show ?thesis using b by (simp add: fire_due [OF ne d] balanced_def)
    next
      case False
      then show ?thesis using b pos
        by (simp add: fire_due [OF ne d] balanced_def assistantCount_def userCount_def
            botResponse_def)
    qed
  qed
qed

lemma balanced_fire_funpow: "balanced w \<Longrightarrow> balanced ((fire t ^^ n) w)"
  by (induction n) (simp_all add: balanced_fire)

lemma balanced_step: "balanced w \<Longrightarrow> balanced (step e w)"
  by (cases e)
     (simp_all add: balanced_send balanced_fire balanced_fire_funpow elapse_def
        handleKeyPress_def, simp add: balanced_def setInputValue_def)

lemma balanced_run: "balanced w \<Longrightarrow> balanced (run es w)"
  by (induction es arbitrary: w) (simp_all add: run_def balanced_step)

lemma trim_nonempty: "trim s \<noteq> [] \<Longrightarrow> s \<noteq> []"
  by (auto simp: trim_def)




subsection \<open>The claims\<close>

lemmas chat_eval =
  run_def submit_def elapse_def mount_def initialMessages_def setInputValue_def send_def
  handleSendMessage_def handleKeyPress_def trim_def isWhiteSpace_def str_def fire_def
  timerCallback_def botResponse_def Let_def

text \<open>
  C1. Two sends in quick succession, \<open>a\<close> at time 0 and \<open>b\<close> at time 10, each followed by
  its reply one second later: the first reply carries the id computed from the list of
  the render in which it was scheduled, 3, which the second user message already has.
  The ids of the log are not unique and not strictly increasing.
\<close>

theorem two_rapid_sends_duplicate_id:
  "ids (run [Change (str ''a''), Click 0, Change (str ''b''), Click 10, Tick 1000, Tick 1010]
         (mount 0)) = [1, 2, 3, 3, 4] \<and>
   \<not> distinct (ids (run [Change (str ''a''), Click 0, Change (str ''b''), Click 10,
                          Tick 1000, Tick 1010] (mount 0)))"
proof -
  have "ids (run [Change (str ''a''), Click 0, Change (str ''b''), Click 10, Tick 1000, Tick 1010]
         (mount 0)) = [1, 2, 3, 3, 4]"
    by (simp add: ids_def chat_eval)
  then show ?thesis by simp
qed




text \<open>
  C3. A submit of a text that is empty or blank after trimming appends no message and
  schedules no timer: the handler returns the state as it is, and the count is unchanged.
\<close>

theorem submit_blank_noop:
  assumes "trim text = []"
  shows "messages (submit now text w) = messages w \<and>
         pending (submit now text w) = pending w \<and>
         handleSendMessage now (setInputValue text w) = (setInputValue text w, []) \<and>
         length (messages (submit now text w)) = length (messages w)"
proof -
  have rej: "trim (inputValue (setInputValue text w)) = []"
    using assms by (simp add: setInputValue_def)
  show ?thesis
    by (simp add: submit_def send_rejected [OF rej] handleSendMessage_rejected [OF rej])
       (simp add: setInputValue_def)
qed

theorem submit_blank_noop_witness:
  "trim [0x20, 0x09, 0x3000] = [] \<and>
   messages (submit 7 [0x20, 0x09, 0x3000] (mount 0)) = initialMessages 0 \<and>
   pending (submit 7 [0x20, 0x09, 0x3000] (mount 0)) = []"
proof -
  have h: "trim [0x20, 0x09, 0x3000] = []"
    by (simp add: trim_def isWhiteSpace_def)
  show ?thesis
    using h submit_blank_noop [OF h, of 7 "mount 0"] by (simp add: mount_def)
qed

text \<open>
  C4. The log is only ever appended to. The send handler leaves it as it is or adds one
  message at its end, the timer callback adds one message at its end, a change of the
  input field leaves it alone; so whatever happens, the earlier log is a prefix of the
  later one. The session starts with the one greeting, an Assistant message with id 1,
  and the greeting stays the first element.
\<close>

theorem messages_append_only:
  "(messages (fst (handleSendMessage now st)) = messages st \<or>
      (\<exists>m. messages (fst (handleSendMessage now st)) = messages st @ [m])) \<and>
   (\<exists>m. messages (timerCallback t tm st) = messages st @ [m]) \<and>
   messages (setInputValue v st) = messages st \<and>
   (messages (fire t w) = messages w \<or> (\<exists>m. messages (fire t w) = messages w @ [m])) \<and>
   (\<exists>rest. messages (run es w) = messages w @ rest) \<and>
   messages (mount t0) =
     [\<lparr>id_msg = 1, content = greetingText, isBot = True, timestamp = t0\<rparr>] \<and>
   (\<exists>rest. messages (run es (mount t0)) =
     \<lparr>id_msg = 1, content = greetingText, isBot = True, timestamp = t0\<rparr> # rest)"
proof (intro conjI)
  show "messages (fst (handleSendMessage now st)) = messages st \<or>
      (\<exists>m. messages (fst (handleSendMessage now st)) = messages st @ [m])"
    by (cases "trim (inputValue st) = []")
       (simp_all add: handleSendMessage_rejected handleSendMessage_accepted)
  show "\<exists>m. messages (timerCallback t tm st) = messages st @ [m]"
    by (simp add: timerCallback_def)
  show "messages (setInputValue v st) = messages st"
    by (simp add: setInputValue_def)
  show "messages (fire t w) = messages w \<or> (\<exists>m. messages (fire t w) = messages w @ [m])"
    by (rule fire_appends)
  show "\<exists>rest. messages (run es w) = messages w @ rest"
    by (rule run_extends)
  show "messages (mount t0) =
     [\<lparr>id_msg = 1, content = greetingText, isBot = True, timestamp = t0\<rparr>]"
    by (simp add: mount_def initialMessages_def)
  show "\<exists>rest. messages (run es (mount t0)) =
     \<lparr>id_msg = 1, content = greetingText, isBot = True, timestamp = t0\<rparr> # rest"
    using run_extends [of es "mount t0"] by (simp add: mount_def initialMessages_def)
qed

text \<open>
  C5. An accepted submit hands the host one timer, due 1000 ms after the call. Whatever
  the timer and the time, the reply's content is the one fixed text; with nothing else in
  flight, the log at time \<open>t\<close> is that of the submit, followed by the reply once the
  1000 ms are over and by nothing before.
\<close>

theorem reply_delay_and_content:
  assumes "trim text \<noteq> []"
  shows "pending (submit now text w) =
           pending w @ [\<lparr>due = now + 1000, closure_messages = messages w\<rparr>] \<and>
         content (botResponse t tm) = replyText \<and>
         (pending w = [] \<longrightarrow>
            messages (elapse t (submit now text w)) =
              messages (submit now text w) @
              (if now + 1000 \<le> t
               then [\<lparr>id_msg = length (messages w) + 2, content = replyText,
                      isBot = True, timestamp = t\<rparr>]
               else []))"
proof -
  have acc: "trim (inputValue (setInputValue text w)) \<noteq> []"
    using assms by (simp add: setInputValue_def)
  have p: "pending (submit now text w) =
           pending w @ [\<lparr>due = now + 1000, closure_messages = messages w\<rparr>]"
    by (simp add: submit_def send_accepted [OF acc]) (simp add: setInputValue_def)
  have c: "content (botResponse t tm) = replyText"
    by (simp add: botResponse_def)
  have e: "messages (elapse t (submit now text w)) =
              messages (submit now text w) @
              (if now + 1000 \<le> t
               then [\<lparr>id_msg = length (messages w) + 2, content = replyText,
                      isBot = True, timestamp = t\<rparr>]
               else [])" if q: "pending w = []"
    using p q by (simp add: elapse_def fire_def timerCallback_def botResponse_def)
  from p c e show ?thesis by blast
qed

theorem reply_delay_and_content_witness:
  "trim (str ''red shoes'') \<noteq> [] \<and> trim (str ''blue hat'') \<noteq> [] \<and>
   pending (mount 0) = [] \<and>
   pending (submit 5 (str ''red shoes'') (mount 0)) =
     [\<lparr>due = 1005, closure_messages = initialMessages 0\<rparr>] \<and>
   pending (submit 5 (str ''blue hat'') (mount 0)) =
     [\<lparr>due = 1005, closure_messages = initialMessages 0\<rparr>] \<and>
   messages (elapse 1004 (submit 5 (str ''red shoes'') (mount 0))) =
     messages (submit 5 (str ''red shoes'') (mount 0)) \<and>
   messages (elapse 1005 (submit 5 (str ''red shoes'') (mount 0))) =
     messages (submit 5 (str ''red shoes'') (mount 0)) @
     [\<lparr>id_msg = 3, content = replyText, isBot = True, timestamp = 1005\<rparr>] \<and>
   messages (elapse 1005 (submit 5 (str ''blue hat'') (mount 0))) =
     messages (submit 5 (str ''blue hat'') (mount 0)) @
     [\<lparr>id_msg = 3, content = replyText, isBot = True, timestamp = 1005\<rparr>]"
proof -
  have h1: "trim (str ''red shoes'') \<noteq> []" and h2: "trim (str ''blue hat'') \<noteq> []"
    by (simp_all add: trim_def isWhiteSpace_def str_def)
  have m: "pending (mount 0) = []" "messages (mount 0) = initialMessages 0"
    "length (initialMessages 0) = 1"
    by (simp_all add: mount_def initialMessages_def)
  show ?thesis
    using h1 h2 reply_delay_and_content [OF h1, of 5 "mount 0" 1004]
      reply_delay_and_content [OF h1, of 5 "mount 0" 1005]
      reply_delay_and_content [OF h2, of 5 "mount 0" 1005]
    by (simp add: m)
qed

text \<open>
  C6. An accepted send appends one User message and schedules one timer, due 1000 ms
  later; a rejected one does neither. The callback has no branch: it appends one
  Assistant message. When time \<open>t\<close> has come, no timer due by \<open>t\<close> is left. In every
  state the session can reach, the Assistant messages and the pending timers together
  are the User messages and the greeting, and no prefix of the log holds more replies
  than User messages; once every pending timer has come due, each User message has its
  reply.
\<close>

theorem every_user_message_gets_one_reply:
  "(trim (inputValue w) \<noteq> [] \<longrightarrow>
      (\<exists>u tm. \<not> isBot u \<and> due tm = now + 1000 \<and>
         messages (send now w) = messages w @ [u] \<and>
         pending (send now w) = pending w @ [tm])) \<and>
   (trim (inputValue w) = [] \<longrightarrow> send now w = w) \<and>
   isBot (botResponse t tm) \<and>
   messages (timerCallback t tm st) = messages st @ [botResponse t tm] \<and>
   pending (elapse t w) = filter (\<lambda>tm. \<not> due tm \<le> t) (pending w) \<and>
   assistantCount (messages (run es (mount t0))) + length (pending (run es (mount t0))) =
     userCount (messages (run es (mount t0))) + 1 \<and>
   (\<forall>n. assistantCount (take n (messages (run es (mount t0)))) \<le>
        userCount (take n (messages (run es (mount t0)))) + 1) \<and>
   ((\<forall>tm \<in> set (pending (run es (mount t0))). due tm \<le> t) \<longrightarrow>
      pending (elapse t (run es (mount t0))) = [] \<and>
      assistantCount (messages (elapse t (run es (mount t0)))) =
        userCount (messages (elapse t (run es (mount t0)))) + 1)"
proof -
  let ?r = "run es (mount t0)"
  have a: "trim (inputValue w) \<noteq> [] \<longrightarrow>
      (\<exists>u tm. \<not> isBot u \<and> due tm = now + 1000 \<and>
         messages (send now w) = messages w @ [u] \<and>
         pending (send now w) = pending w @ [tm])"
    by (simp add: send_accepted)
  have b: "trim (inputValue w) = [] \<longrightarrow> send now w = w"
    by (simp add: send_rejected)
  have c: "isBot (botResponse t tm)"
    by (simp add: botResponse_def)
  have d: "messages (timerCallback t tm st) = messages st @ [botResponse t tm]"
    by (simp add: timerCallback_def)
  have e: "pending (elapse t w) = filter (\<lambda>tm. \<not> due tm \<le> t) (pending w)"
    by (rule elapse_pending)
  have bal: "balanced ?r"
    by (rule balanced_run [OF balanced_mount])
  have f: "assistantCount (messages ?r) + length (pending ?r) = userCount (messages ?r) + 1"
    using bal by (simp add: balanced_def)
  have g: "\<forall>n. assistantCount (take n (messages ?r)) \<le> userCount (take n (messages ?r)) + 1"
    using bal by (simp add: balanced_def)
  have h: "pending (elapse t ?r) = [] \<and>
      assistantCount (messages (elapse t ?r)) = userCount (messages (elapse t ?r)) + 1"
    if all: "\<forall>tm \<in> set (pending ?r). due tm \<le> t"
  proof -
    have p: "pending (elapse t ?r) = []"
      using all by (simp add: elapse_pending filter_empty_conv)
    have "balanced (elapse t ?r)"
      unfolding elapse_def by (rule balanced_fire_funpow [OF bal])
    with p show ?thesis by (simp add: balanced_def)
  qed
  from a b c d e f g h show ?thesis by blast
qed

theorem every_user_message_gets_one_reply_witness:
  "trim (inputValue (setInputValue (str ''a'') (mount 0))) \<noteq> [] \<and>
   length (pending (send 3 (setInputValue (str ''a'') (mount 0)))) = 1 \<and>
   trim (inputValue (mount 0)) = [] \<and> send 3 (mount 0) = mount 0 \<and>
   map due (pending (run [Change (str ''a''), Click 3] (mount 0))) = [1003] \<and>
   pending (elapse 1003 (run [Change (str ''a''), Click 3] (mount 0))) = [] \<and>
   userCount (messages (elapse 1003 (run [Change (str ''a''), Click 3] (mount 0)))) = 1 \<and>
   assistantCount (messages (elapse 1003 (run [Change (str ''a''), Click 3] (mount 0)))) = 2"
proof -
  let ?w = "setInputValue (str ''a'') (mount 0)"
  let ?r = "run [Change (str ''a''), Click 3] (mount 0)"
  have h1: "trim (inputValue ?w) \<noteq> []"
    by (simp add: setInputValue_def trim_def isWhiteSpace_def str_def)
  have h2: "trim (inputValue (mount 0)) = []"
    by (simp add: mount_def trim_def)
  have p: "pending ?r = [\<lparr>due = 1003, closure_messages = initialMessages 0\<rparr>]"
    by (simp add: chat_eval)
  have h3: "\<forall>tm \<in> set (pending ?r). due tm \<le> 1003"
    by (simp add: p)
  have u: "userCount (messages (elapse 1003 ?r)) = 1"
    by (simp add: userCount_def chat_eval)
  have q: "pending (mount 0) = []" "pending ?w = []"
    by (simp_all add: mount_def setInputValue_def)
  note T1 = every_user_message_gets_one_reply [of "mount 0" 3 1003 _ _
      "[Change (str ''a''), Click 3]" 0]
  note T2 = every_user_message_gets_one_reply [of ?w 3 1003 _ _
      "[Change (str ''a''), Click 3]" 0]
  from T1 h2 have s: "send 3 (mount 0) = mount 0"
    by blast
  from T1 h3 have e: "pending (elapse 1003 ?r) = [] \<and>
      assistantCount (messages (elapse 1003 ?r)) = userCount (messages (elapse 1003 ?r)) + 1"
    by blast
  from T2 h1 obtain tm where "pending (send 3 ?w) = pending ?w @ [tm]"
    by blast
  then have l: "length (pending (send 3 ?w)) = 1"
    by (simp add: q)
  have d: "map due (pending ?r) = [1003]"
    by (simp add: p)
  from h1 l h2 s d e u show ?thesis
    by simp
qed

text \<open>
  C9. An accepted send empties the input field; a rejected one returns the state it was
  given. In both cases the result differs from the state given in the message list and
  the input field at most: every other part of the state is as it was.
\<close>

theorem handleSendMessage_frame:
  "(trim (inputValue st) \<noteq> [] \<longrightarrow> inputValue (fst (handleSendMessage now st)) = []) \<and>
   (trim (inputValue st) = [] \<longrightarrow> fst (handleSendMessage now st) = st) \<and>
   chat_state.more (fst (handleSendMessage now st)) = chat_state.more st \<and>
   fst (handleSendMessage now st) =
     st\<lparr>messages := messages (fst (handleSendMessage now st)),
        inputValue := inputValue (fst (handleSendMessage now st))\<rparr>"
  by (cases "trim (inputValue st) = []")
     (simp_all add: handleSendMessage_rejected handleSendMessage_accepted)

theorem handleSendMessage_frame_witness:
  "trim (str ''hi'') \<noteq> [] \<and>
   inputValue (fst (handleSendMessage 9
     \<lparr>messages = initialMessages 0, inputValue = str ''hi'', \<dots> = True\<rparr>)) = [] \<and>
   chat_state.more (fst (handleSendMessage 9
     \<lparr>messages = initialMessages 0, inputValue = str ''hi'', \<dots> = True\<rparr>)) = True \<and>
   trim [0x20] = [] \<and>
   fst (handleSendMessage 9 \<lparr>messages = initialMessages 0, inputValue = [0x20], \<dots> = True\<rparr>) =
     \<lparr>messages = initialMessages 0, inputValue = [0x20], \<dots> = True\<rparr>"
proof -
  have h1: "trim (str ''hi'') \<noteq> []"
    by (simp add: trim_def isWhiteSpace_def str_def)
  have h2: "trim [0x20] = []"
    by (simp add: trim_def isWhiteSpace_def)
  show ?thesis
    using h1 h2
      handleSendMessage_frame
        [of "\<lparr>messages = initialMessages 0, inputValue = str ''hi'', \<dots> = True\<rparr>" 9]
      handleSendMessage_frame
        [of "\<lparr>messages = initialMessages 0, inputValue = [0x20], \<dots> = True\<rparr>" 9]
    by simp
qed

text \<open>
  C10. The User message appended by an accepted send holds the input as typed, not its
  trimmed form; it is not empty.
\<close>

theorem user_message_content_untrimmed:
  assumes "trim (inputValue st) \<noteq> []"
  shows "messages (fst (handleSendMessage now st)) =
           messages st @
           [\<lparr>id_msg = length (messages st) + 1, content = inputValue st,
             isBot = False, timestamp = now\<rparr>] \<and>
         content (last (messages (fst (handleSendMessage now st)))) = inputValue st \<and>
         inputValue st \<noteq> []"
  using assms trim_nonempty [OF assms] by (simp add: handleSendMessage_accepted)

theorem user_message_content_untrimmed_witness:
  "trim (str ''  red shoes '') \<noteq> [] \<and>
   trim (str ''  red shoes '') = str ''red shoes'' \<and>
   content (last (messages (fst (handleSendMessage 9
     \<lparr>messages = initialMessages 0, inputValue = str ''  red shoes ''\<rparr>)))) =
     str ''  red shoes '' \<and>
   str ''  red shoes '' \<noteq> str ''red shoes''"
proof -
  have t: "trim (str ''  red shoes '') = str ''red shoes''"
    by (simp add: trim_def isWhiteSpace_def str_def)
  have h: "trim (inputValue \<lparr>messages = initialMessages 0, inputValue = str ''  red shoes ''\<rparr>) \<noteq> []"
    by (simp add: trim_def isWhiteSpace_def str_def)
  have n: "str ''  red shoes '' \<noteq> str ''red shoes''"
    by (simp add: str_def)
  have c: "content (last (messages (fst (handleSendMessage 9
     \<lparr>messages = initialMessages 0, inputValue = str ''  red shoes ''\<rparr>)))) =
     str ''  red shoes ''"
    using user_message_content_untrimmed [OF h, of 9] by simp
  have e: "trim (str ''  red shoes '') \<noteq> []"
    using h by simp
  from e t c n show ?thesis by blast
qed

section \<open>Properties of the product grid\<close>

lemma sortOptions_eq:
  "sortOptions =
     [str ''featured'', str ''price-low'', str ''price-high'', str ''rating'', str ''newest'']"
  by (simp add: sortOptions_def selectItems_def)

lemma gridStep_sortBy:
  "sortBy st \<in> set sortOptions \<Longrightarrow> sortBy (gridStep e st) \<in> set sortOptions"
  by (cases e) (simp_all add: sortOptions_def)

lemma gridStep_viewMode:
  "viewMode st \<in> {str ''grid'', str ''list''} \<Longrightarrow>
   viewMode (gridStep e st) \<in> {str ''grid'', str ''list''}"
  by (cases e) simp_all

lemma gridRun_sortBy:
  "sortBy st \<in> set sortOptions \<Longrightarrow> sortBy (gridRun es st) \<in> set sortOptions"
  unfolding gridRun_def by (induction es arbitrary: st) (simp_all add: gridStep_sortBy)

lemma gridRun_viewMode:
  "viewMode st \<in> {str ''grid'', str ''list''} \<Longrightarrow>
   viewMode (gridRun es st) \<in> {str ''grid'', str ''list''}"
  unfolding gridRun_def
  by (induction es arbitrary: st) (simp_all only: fold_simps id_apply comp_apply gridStep_viewMode)


text \<open>
  C7. The cards rendered are those of the fixed product list, in its order, whatever
  the sort selection and the view mode are and whatever has been selected before.
\<close>

theorem sort_selection_does_not_change_cards:
  "cards (ProductGrid st) = cards (ProductGrid st') \<and>
   cards (ProductGrid st) = map productCard products \<and>
   cards (ProductGrid (gridRun es gridInitial)) = cards (ProductGrid gridInitial) \<and>
   map key (cards (ProductGrid (st\<lparr>sortBy := v, viewMode := m\<rparr>))) = [1, 2, 3, 4, 5, 6]"
  by (simp add: ProductGrid_def) (simp add: products_def productCard_def)

text \<open>
  C8. The sort menu offers the five values \<open>featured\<close>, \<open>price-low\<close>, \<open>price-high\<close>,
  \<open>rating\<close> and \<open>newest\<close>, each of them can be selected, and the sort state never holds
  anything else; the view mode is \<open>grid\<close> or \<open>list\<close>, set by the two buttons.
\<close>

theorem sort_and_view_values:
  "sortOptions =
     [str ''featured'', str ''price-low'', str ''price-high'', str ''rating'', str ''newest''] \<and>
   length sortOptions = 5 \<and> distinct sortOptions \<and>
   sortBy (gridRun es gridInitial) \<in> set sortOptions \<and>
   map (\<lambda>k. sortBy (gridStep (SelectItem k) st)) [0, 1, 2, 3, 4] = sortOptions \<and>
   sortBy (gridStep (SelectItem (5 + k)) st) = sortBy st \<and>
   viewMode (gridRun es gridInitial) \<in> {str ''grid'', str ''list''} \<and>
   viewMode (gridStep ClickGrid st) = str ''grid'' \<and>
   viewMode (gridStep ClickList st) = str ''list'' \<and>
   str ''grid'' \<noteq> str ''list''"
proof (intro conjI)
  show "sortOptions =
     [str ''featured'', str ''price-low'', str ''price-high'', str ''rating'', str ''newest'']"
    by (rule sortOptions_eq)
  show "length sortOptions = 5"
    by (simp add: sortOptions_eq)
  show "distinct sortOptions"
    by (simp add: sortOptions_eq str_def)
  show "sortBy (gridRun es gridInitial) \<in> set sortOptions"
    by (rule gridRun_sortBy) (simp add: gridInitial_def sortOptions_eq)
  show "map (\<lambda>k. sortBy (gridStep (SelectItem k) st)) [0, 1, 2, 3, 4] = sortOptions"
    by (simp add: sortOptions_eq) (simp add: selectItems_def)
  show "sortBy (gridStep (SelectItem (5 + k)) st) = sortBy st"
    by (simp add: selectItems_def)
  show "viewMode (gridRun es gridInitial) \<in> {str ''grid'', str ''list''}"
    by (rule gridRun_viewMode) (simp add: gridInitial_def)
  show "viewMode (gridStep ClickGrid st) = str ''grid''"
    by simp
  show "viewMode (gridStep ClickList st) = str ''list''"
    by simp
  show "str ''grid'' \<noteq> str ''list''"
    by (simp add: str_def)
qed

end
